theory Spec2Isabelle
  imports Main "HOL-Library.List_Lexorder" "HOL-Library.Multiset"
begin

section \<open>Task service: data model\<close>

text \<open>
  Modelled from the spec: the entity \<open>Task\<close> and the enums \<open>TaskStatus\<close> and
  \<open>TaskPriority\<close>, which \<^verbatim>\<open>tasks.service.ts\<close> imports and whose files are not
  among the sources. A task has an identity, title, description, status, priority,
  owning-user reference and createdAt/updatedAt timestamps; the status enum has the members
  PENDING, IN_PROGRESS, COMPLETED "and others", the priority enum LOW, MEDIUM, HIGH
  "and others". The members the spec does not name are kept as \<open>OTHER_STATUS\<close> and
  \<open>OTHER_PRIORITY\<close>.
\<close>

datatype task_status = PENDING | IN_PROGRESS | COMPLETED | OTHER_STATUS string

datatype task_priority = LOW | MEDIUM | HIGH | OTHER_PRIORITY string

record task =
  task_id :: string
  title :: string
  description :: "string option"
  status :: task_status
  priority :: task_priority
  userId :: string
  createdAt :: int
  updatedAt :: int

text \<open>
  Modelled from the spec: \<open>CreateTaskDto\<close> and \<open>UpdateTaskDto\<close> (their files are not
  among the sources either), with the fields of the entity that a caller supplies; an
  optional property that the caller did not supply is \<open>None\<close>.
\<close>

record create_task_dto =
  c_title :: string
  c_description :: "string option"
  c_status :: "task_status option"
  c_priority :: "task_priority option"
  c_userId :: string

record update_task_dto =
  u_title :: "string option"
  u_description :: "string option"
  u_status :: "task_status option"
  u_priority :: "task_priority option"
  u_userId :: "string option"

text \<open>Everything a service method can reject with.\<close>

datatype error =
    StoreError string
  | NotFoundException string
  | Error string
  | SyntaxError

text \<open>
  The payload of \<^verbatim>\<open>taskQueue.add(name, {taskId, status})\<close>.
\<close>

record job =
  job_name :: string
  job_taskId :: string
  job_status :: task_status

text \<open>
  The collaborators are the relational store, the query runner (the unit of work) and the
  queue. Their observable effects are kept in one trace, in the order in which the service
  issues them, so that "before the commit" is a statement about positions in the trace.
  The table is the list of its rows.
\<close>

datatype effect = TxConnect | TxStart | TxCommit | TxRollback | QueueAdd job

record world =
  rows :: "task list"
  trace :: "effect list"

text \<open>
  What the surroundings decide for one call: whether the store rejects a read, a write or
  the commit (and with which message; the rejection is a \<open>StoreError\<close>), the identity the store generates for a new row, its
  clock, and the column defaults of the entity (which is not among the sources).
  Acquiring the connection, starting the transaction and rolling it back are taken to
  succeed; \<^verbatim>\<open>taskQueue.add\<close> is the submission of the job to the queue client, which
  is taken to accept it.

  For a query, the store also decides what the code leaves to it: whether it refuses a
  negative OFFSET or LIMIT (as PostgreSQL and MySQL do) or reads it as none (as SQLite
  does); which ORDER BY expressions it resolves to a column or relation of the entity,
  with the sort key of that column (the entity is not among the sources); the order in
  which it visits the rows, which is the order it leaves rows of equal sort key in; and
  what its collation compares a character of a text as (the character itself where case
  matters, its lower-case form where it does not).
\<close>

record store_env =
  read_fault :: "string option"
  write_fault :: "string option"
  commit_fault :: "string option"
  generated_id :: string
  clock :: int
  default_status :: task_status
  default_priority :: task_priority
  rejects_negative :: bool
  resolve_column :: "string \<Rightarrow> (task \<Rightarrow> int list) option"
  arrange :: "task list \<Rightarrow> task list"
  fold_char :: "char \<Rightarrow> char"

section \<open>Task service: collaborators\<close>

definition emit :: "effect \<Rightarrow> world \<Rightarrow> world" where
  "emit e w = w\<lparr>trace := trace w @ [e]\<rparr>"

fun queue_of :: "effect list \<Rightarrow> job list" where
  "queue_of [] = []"
| "queue_of (QueueAdd j # es) = j # queue_of es"
| "queue_of (e # es) = queue_of es"

definition queue :: "world \<Rightarrow> job list" where
  "queue w = queue_of (trace w)"

definition queue_add :: "string \<Rightarrow> string \<Rightarrow> task_status \<Rightarrow> world \<Rightarrow> world" where
  "queue_add name tid st w =
     emit (QueueAdd \<lparr>job_name = name, job_taskId = tid, job_status = st\<rparr>) w"

text \<open>The job that reports status \<open>st\<close> of task \<open>i\<close>.\<close>

definition status_job :: "string \<Rightarrow> task_status \<Rightarrow> job" where
  "status_job i st = \<lparr>job_name = ''task-status-update'', job_taskId = i, job_status = st\<rparr>"

definition commitTransaction :: "store_env \<Rightarrow> world \<Rightarrow> (error + unit) \<times> world" where
  "commitTransaction env w =
     (case commit_fault env of
        Some e \<Rightarrow> (Inl (StoreError e), w)
      | None \<Rightarrow> (Inr (), emit TxCommit w))"

definition rollbackTransaction :: "world \<Rightarrow> world" where
  "rollbackTransaction w = emit TxRollback w"

text \<open>
  \<^verbatim>\<open>tasksRepository.create({...createTaskDto, user: {id: createTaskDto.userId}})\<close>
  followed by \<^verbatim>\<open>tasksRepository.save(task)\<close>: the store fills in the identity, the
  timestamps and the column defaults. The repository is the injected one: it is not bound
  to the query runner, so a row it has written is not undone by the runner's rollback.
\<close>

definition repository_create :: "store_env \<Rightarrow> create_task_dto \<Rightarrow> task" where
  "repository_create env dto =
     \<lparr>task_id = generated_id env,
      title = c_title dto,
      description = c_description dto,
      status = (case c_status dto of None \<Rightarrow> default_status env | Some s \<Rightarrow> s),
      priority = (case c_priority dto of None \<Rightarrow> default_priority env | Some p \<Rightarrow> p),
      userId = c_userId dto,
      createdAt = clock env,
      updatedAt = clock env\<rparr>"

definition save_insert :: "store_env \<Rightarrow> task \<Rightarrow> world \<Rightarrow> (error + task) \<times> world" where
  "save_insert env t w =
     (case write_fault env of
        Some e \<Rightarrow> (Inl (StoreError e), w)
      | None \<Rightarrow> (Inr t, w\<lparr>rows := rows w @ [t]\<rparr>))"

section \<open>Task service: create\<close>

text \<open>
  \<^verbatim>\<open>
  const queryRunner = this.dataSource.createQueryRunner();
  await queryRunner.connect();
  await queryRunner.startTransaction();
  try {
    const task = this.tasksRepository.create({...});
    const savedTask = await this.tasksRepository.save(task);
    if (savedTask)
      this.taskQueue.add('task-status-update', {taskId: savedTask.id, status: savedTask.status});
    await queryRunner.commitTransaction();
    return savedTask;
  } catch (error) {
    await queryRunner.rollbackTransaction();
    throw error;
  }
  \<close>
  A saved entity is an object, so \<^verbatim>\<open>if (savedTask)\<close> always takes its branch.
\<close>

definition create :: "store_env \<Rightarrow> create_task_dto \<Rightarrow> world \<Rightarrow> (error + task) \<times> world" where
  "create env dto w0 =
     (let w1 = emit TxConnect w0;
          w2 = emit TxStart w1;
          task = repository_create env dto
      in case save_insert env task w2 of
           (Inl e, w3) \<Rightarrow> (Inl e, rollbackTransaction w3)
         | (Inr savedTask, w3) \<Rightarrow>
             (let w4 = queue_add ''task-status-update'' (task_id savedTask) (status savedTask) w3
              in case commitTransaction env w4 of
                   (Inl e, w5) \<Rightarrow> (Inl e, rollbackTransaction w5)
                 | (Inr u, w5) \<Rightarrow> (Inr savedTask, w5)))"

section \<open>Task service: findOne, update, remove\<close>

definition findOne :: "store_env \<Rightarrow> string \<Rightarrow> world \<Rightarrow> error + task option" where
  "findOne env i w =
     (case read_fault env of
        Some e \<Rightarrow> Inl (StoreError e)
      | None \<Rightarrow> Inr (find (\<lambda>t. task_id t = i) (rows w)))"

text \<open>
  In \<open>update\<close> the loaded entity is a JavaScript object and the method keeps three
  names for it (\<^verbatim>\<open>task\<close>, \<^verbatim>\<open>updatedTask\<close>, \<^verbatim>\<open>updatedTaskSave\<close>), so
  entity instances live in an object store and the names hold references.
  \<^verbatim>\<open>Object.assign(target, source)\<close> writes the supplied properties into the
  target object and returns the target itself; \<^verbatim>\<open>save(entity)\<close> writes the row and
  resolves to the entity it was given.
\<close>

type_synonym ref = nat

type_synonym entities = "ref \<Rightarrow> task"

definition assign_fields :: "task \<Rightarrow> update_task_dto \<Rightarrow> task" where
  "assign_fields t dto =
     t\<lparr>title := (case u_title dto of None \<Rightarrow> title t | Some x \<Rightarrow> x),
       description := (case u_description dto of None \<Rightarrow> description t | Some x \<Rightarrow> Some x),
       status := (case u_status dto of None \<Rightarrow> status t | Some x \<Rightarrow> x),
       priority := (case u_priority dto of None \<Rightarrow> priority t | Some x \<Rightarrow> x),
       userId := (case u_userId dto of None \<Rightarrow> userId t | Some x \<Rightarrow> x)\<rparr>"

definition object_assign :: "entities \<Rightarrow> ref \<Rightarrow> update_task_dto \<Rightarrow> entities \<times> ref" where
  "object_assign h target dto = (h(target := assign_fields (h target) dto), target)"

definition save_entity ::
  "store_env \<Rightarrow> entities \<Rightarrow> ref \<Rightarrow> world \<Rightarrow> (error + ref) \<times> world" where
  "save_entity env h r w =
     (case write_fault env of
        Some e \<Rightarrow> (Inl (StoreError e), w)
      | None \<Rightarrow>
          (Inr r, w\<lparr>rows := map (\<lambda>row. if task_id row = task_id (h r) then h r else row) (rows w)\<rparr>))"

text \<open>
  \<^verbatim>\<open>
  try {
    const task = await this.findOne(id);
    if (!task) { return null; }
    const updatedTask = Object.assign(task, updateTaskDto);
    const originalStatus = task.status;
    const updatedTaskSave = await this.tasksRepository.save(task);
    // Add to queue if status changed, but without proper error handling
    if (originalStatus !== updatedTaskSave.status) {
      this.taskQueue.add('task-status-update', {taskId: updatedTask.id, status: updatedTask.status});
    }
    await queryRunner.commitTransaction();
    return updatedTaskSave;
  } catch (error) { await queryRunner.rollbackTransaction(); throw error; }
  \<close>
  \<^verbatim>\<open>originalStatus\<close> is read from the object after \<^verbatim>\<open>Object.assign\<close> has written
  into it. The early \<^verbatim>\<open>return null\<close> leaves the try block without commit or rollback.
\<close>

definition update ::
  "store_env \<Rightarrow> string \<Rightarrow> update_task_dto \<Rightarrow> world \<Rightarrow> (error + task option) \<times> world" where
  "update env i updateTaskDto w0 =
     (let w1 = emit TxConnect w0;
          w2 = emit TxStart w1
      in case findOne env i w2 of
           Inl e \<Rightarrow> (Inl e, rollbackTransaction w2)
         | Inr None \<Rightarrow> (Inr None, w2)
         | Inr (Some loaded) \<Rightarrow>
             (let task = (0::ref);
                  h0 = (\<lambda>r. loaded);
                  (h1, updatedTask) = object_assign h0 task updateTaskDto;
                  originalStatus = status (h1 task)
              in case save_entity env h1 task w2 of
                   (Inl e, w3) \<Rightarrow> (Inl e, rollbackTransaction w3)
                 | (Inr updatedTaskSave, w3) \<Rightarrow>
                     (let w4 = (if originalStatus \<noteq> status (h1 updatedTaskSave)
                                then queue_add ''task-status-update''
                                       (task_id (h1 updatedTask)) (status (h1 updatedTask)) w3
                                else w3)
                      in case commitTransaction env w4 of
                           (Inl e, w5) \<Rightarrow> (Inl e, rollbackTransaction w5)
                         | (Inr u, w5) \<Rightarrow> (Inr (Some (h1 updatedTaskSave)), w5))))"

text \<open>
  \<^verbatim>\<open>tasksRepository.delete(id)\<close> resolves to the number of rows it removed.
\<close>

definition repository_delete :: "store_env \<Rightarrow> string \<Rightarrow> world \<Rightarrow> (error + nat) \<times> world" where
  "repository_delete env i w =
     (case write_fault env of
        Some e \<Rightarrow> (Inl (StoreError e), w)
      | None \<Rightarrow>
          (Inr (length (filter (\<lambda>t. task_id t = i) (rows w))),
           w\<lparr>rows := filter (\<lambda>t. task_id t \<noteq> i) (rows w)\<rparr>))"

definition remove :: "store_env \<Rightarrow> string \<Rightarrow> world \<Rightarrow> (error + string) \<times> world" where
  "remove env i w =
     (case repository_delete env i w of
        (Inl e, w') \<Rightarrow> (Inl e, w')
      | (Inr affected, w') \<Rightarrow>
          (if affected = 0
           then (Inl (NotFoundException (''Task with ID '' @ i @ '' not found'')), w')
           else (Inr (''Task with ID '' @ i @ '' deleted successfully''), w')))"

section \<open>Task service: batchProcessTasks\<close>

datatype batch_result = Updated nat | Deleted nat

text \<open>
  The set-based statements:
  \<^verbatim>\<open>update(Task).set({status: COMPLETED}).whereInIds(taskIds).andWhere('status != :status', ...)\<close>
  and \<^verbatim>\<open>delete().from(Task).whereInIds(taskIds)\<close>, each resolving to its number of
  affected rows.
\<close>

definition to_complete :: "string list \<Rightarrow> task \<Rightarrow> bool" where
  "to_complete taskIds t = (task_id t \<in> set taskIds \<and> status t \<noteq> COMPLETED)"

definition execute_update_completed ::
  "store_env \<Rightarrow> string list \<Rightarrow> world \<Rightarrow> (error + nat) \<times> world" where
  "execute_update_completed env taskIds w =
     (case write_fault env of
        Some e \<Rightarrow> (Inl (StoreError e), w)
      | None \<Rightarrow>
          (Inr (length (filter (to_complete taskIds) (rows w))),
           w\<lparr>rows := map (\<lambda>t. if to_complete taskIds t then t\<lparr>status := COMPLETED\<rparr> else t)
                        (rows w)\<rparr>))"

definition execute_delete_in_ids ::
  "store_env \<Rightarrow> string list \<Rightarrow> world \<Rightarrow> (error + nat) \<times> world" where
  "execute_delete_in_ids env taskIds w =
     (case write_fault env of
        Some e \<Rightarrow> (Inl (StoreError e), w)
      | None \<Rightarrow>
          (Inr (length (filter (\<lambda>t. task_id t \<in> set taskIds) (rows w))),
           w\<lparr>rows := filter (\<lambda>t. task_id t \<notin> set taskIds) (rows w)\<rparr>))"

text \<open>
  \<^verbatim>\<open>
  for (const taskId of taskIds) {
    await this.taskQueue.add('task-status-update', {taskId, status: TaskStatus.COMPLETED});
  }
  \<close>
\<close>

fun enqueue_completed :: "string list \<Rightarrow> world \<Rightarrow> world" where
  "enqueue_completed [] w = w"
| "enqueue_completed (taskId # rest) w =
     enqueue_completed rest (queue_add ''task-status-update'' taskId COMPLETED w)"

definition batchProcessTasks ::
  "store_env \<Rightarrow> string list \<Rightarrow> string \<Rightarrow> world \<Rightarrow> (error + batch_result) \<times> world" where
  "batchProcessTasks env taskIds action w =
     (if action = ''complete'' then
        (case execute_update_completed env taskIds w of
           (Inl e, w1) \<Rightarrow> (Inl e, w1)
         | (Inr affected, w1) \<Rightarrow> (Inr (Updated affected), enqueue_completed taskIds w1))
      else if action = ''delete'' then
        (case execute_delete_in_ids env taskIds w of
           (Inl e, w1) \<Rightarrow> (Inl e, w1)
         | (Inr affected, w1) \<Rightarrow> (Inr (Deleted affected), w1))
      else (Inl (Error ''Invalid action''), w))"

section \<open>Task service: findAll\<close>

text \<open>
  \<open>TaskFilterDto\<close> with the \<open>PaginationParams\<close> it extends (whose field
  \<^verbatim>\<open>order\<close> the service never reads). The date bounds are date strings that the
  store compares with \<open>createdAt\<close>; they are kept as the instants they denote. A filter
  the caller did not supply is \<open>None\<close>.
\<close>

datatype sort_order = ASC | DESC

record task_filter_dto =
  page :: "int option"
  limit :: "int option"
  sortingOrder :: "sort_order option"
  sortingColumn :: "string option"
  searchQuery :: "string option"
  f_status :: "task_status option"
  f_priority :: "task_priority option"
  f_userId :: "string option"
  dateFrom :: "int option"
  dateTo :: "int option"

text \<open>
  The query builder. Each \<^verbatim>\<open>andWhere\<close> of the source passes a fixed condition text
  and its named parameter; a condition is kept as that pair. The ORDER BY expression is
  the string the service passes to \<^verbatim>\<open>orderBy\<close>.
\<close>

datatype condition =
    StatusEq task_status
  | PriorityEq task_priority
  | UserIdEq string
  | TitleOrDescriptionLike string
  | CreatedAtGe int
  | CreatedAtLe int

text \<open>
  \<^verbatim>\<open>page\<close> and \<^verbatim>\<open>limit\<close> are JavaScript numbers, that is doubles; the DTO
  admits them as integers are written. An integer is read as the double nearest to it
  (ties to the even significand), which is the integer itself below \<open>2^53\<close> in
  magnitude and an infinity from \<open>2^1024\<close> on; subtraction and multiplication give the
  double nearest to the exact result. Fractions are not represented.
\<close>

datatype jsnum = Number int | PlusInfinity | MinusInfinity | NotANumber

function bit_length :: "int \<Rightarrow> nat" where
  "bit_length n = (if n \<le> 0 then 0 else Suc (bit_length (n div 2)))"
  by pat_completeness auto
termination
  by (relation "measure nat") auto

declare bit_length.simps [simp del]

definition round53 :: "int \<Rightarrow> int" where
  "round53 n =
     (if n < 2 ^ 53 then n
      else (let e = bit_length n - 53;
                q = n div 2 ^ e;
                r = n mod 2 ^ e;
                half = 2 ^ (e - 1)
            in (if half < r \<or> (r = half \<and> odd q) then q + 1 else q) * 2 ^ e))"

definition number_of_int :: "int \<Rightarrow> jsnum" where
  "number_of_int i =
     (let m = round53 \<bar>i\<bar>
      in if 2 ^ 1024 \<le> m then (if i < 0 then MinusInfinity else PlusInfinity)
         else Number (if i < 0 then - m else m))"

fun negate :: "jsnum \<Rightarrow> jsnum" where
  "negate (Number a) = Number (- a)"
| "negate PlusInfinity = MinusInfinity"
| "negate MinusInfinity = PlusInfinity"
| "negate NotANumber = NotANumber"

text \<open>\<^verbatim>\<open>x - 1\<close> and \<^verbatim>\<open>x * y\<close>.\<close>

fun js_pred :: "jsnum \<Rightarrow> jsnum" where
  "js_pred (Number a) = number_of_int (a - 1)"
| "js_pred x = x"

fun js_times :: "jsnum \<Rightarrow> jsnum \<Rightarrow> jsnum" where
  "js_times (Number a) (Number b) = number_of_int (a * b)"
| "js_times NotANumber y = NotANumber"
| "js_times x NotANumber = NotANumber"
| "js_times (Number a) y = (if a = 0 then NotANumber else if 0 < a then y else negate y)"
| "js_times x (Number b) = (if b = 0 then NotANumber else if 0 < b then x else negate x)"
| "js_times x y = (if x = y then PlusInfinity else MinusInfinity)"

record select_query =
  wheres :: "condition list"
  order_by :: "(string \<times> sort_order option) option"
  q_skip :: "jsnum option"
  q_take :: "jsnum option"

definition createQueryBuilder :: select_query where
  "createQueryBuilder = \<lparr>wheres = [], order_by = None, q_skip = None, q_take = None\<rparr>"

definition andWhere :: "condition \<Rightarrow> select_query \<Rightarrow> select_query" where
  "andWhere c q = q\<lparr>wheres := wheres q @ [c]\<rparr>"

definition orderBy :: "string \<Rightarrow> sort_order option \<Rightarrow> select_query \<Rightarrow> select_query" where
  "orderBy expr dir q = q\<lparr>order_by := Some (expr, dir)\<rparr>"

definition skip_rows :: "jsnum \<Rightarrow> select_query \<Rightarrow> select_query" where
  "skip_rows n q = q\<lparr>q_skip := Some n\<rparr>"

definition take_rows :: "jsnum \<Rightarrow> select_query \<Rightarrow> select_query" where
  "take_rows n q = q\<lparr>q_take := Some n\<rparr>"

text \<open>
  JavaScript truthiness of an optional string: supplied and not empty (\<open>truthy\<close> keeps
  such a string and nothing else). An enum member and a date string are never empty, so
  for them supplied means truthy.
\<close>

definition truthy :: "string option \<Rightarrow> string option" where
  "truthy s = (case s of None \<Rightarrow> None | Some x \<Rightarrow> if x = [] then None else Some x)"

definition when_some :: "'a option \<Rightarrow> ('a \<Rightarrow> select_query \<Rightarrow> select_query) \<Rightarrow> select_query \<Rightarrow> select_query" where
  "when_some x f q = (case x of None \<Rightarrow> q | Some v \<Rightarrow> f v q)"

text \<open>
  \<^verbatim>\<open>
  const { page = 1, limit = 10, ... } = payload;
  const skip = (page - 1) * limit;
  if (status) queryBuilder.andWhere('task.status = :status', { status });
  if (priority) ...  if (userId) ...
  if (searchQuery) queryBuilder.andWhere(
      '(task.title LIKE :searchQuery OR task.description LIKE :searchQuery)',
      { searchQuery: `%${searchQuery}%` });
  if (dateFrom) ...  if (dateTo) ...
  queryBuilder.orderBy(sortingColumn ? `task.${sortingColumn}` : 'task.id', sortingOrder)
    .skip(skip).take(limit).getManyAndCount();
  \<close>
  \<open>findAll_page\<close> and \<open>findAll_limit\<close> are the page and the limit after the defaults,
  as the integers the caller wrote.
\<close>

definition findAll_page :: "task_filter_dto \<Rightarrow> int" where
  "findAll_page payload = (case page payload of None \<Rightarrow> 1 | Some p \<Rightarrow> p)"

definition findAll_limit :: "task_filter_dto \<Rightarrow> int" where
  "findAll_limit payload = (case limit payload of None \<Rightarrow> 10 | Some l \<Rightarrow> l)"

definition findAll_skip :: "task_filter_dto \<Rightarrow> jsnum" where
  "findAll_skip payload =
     js_times (js_pred (number_of_int (findAll_page payload)))
              (number_of_int (findAll_limit payload))"

definition findAll_order_expression :: "task_filter_dto \<Rightarrow> string" where
  "findAll_order_expression payload =
     (case truthy (sortingColumn payload) of Some c \<Rightarrow> ''task.'' @ c | None \<Rightarrow> ''task.id'')"

definition findAll_query :: "task_filter_dto \<Rightarrow> select_query" where
  "findAll_query payload =
     (let limit' = number_of_int (findAll_limit payload);
          skip = findAll_skip payload;
          q0 = createQueryBuilder;
          q1 = when_some (f_status payload) (\<lambda>s. andWhere (StatusEq s)) q0;
          q2 = when_some (f_priority payload) (\<lambda>p. andWhere (PriorityEq p)) q1;
          q3 = when_some (truthy (f_userId payload)) (\<lambda>u. andWhere (UserIdEq u)) q2;
          q4 = when_some (truthy (searchQuery payload))
                 (\<lambda>s. andWhere (TitleOrDescriptionLike (''%'' @ s @ ''%''))) q3;
          q5 = when_some (dateFrom payload) (\<lambda>d. andWhere (CreatedAtGe d)) q4;
          q6 = when_some (dateTo payload) (\<lambda>d. andWhere (CreatedAtLe d)) q5
      in take_rows limit' (skip_rows skip
           (orderBy (findAll_order_expression payload) (sortingOrder payload) q6)))"










text \<open>
  The reading of the filter that the spec gives: every filter that is present contributes
  one condition, and the conditions are taken together; the free-text search "matches
  title OR description via substring containment (case-sensitivity is store-dependent)".
  A string filter is present when it is supplied and not empty. \<open>contains f s q\<close>: the
  text \<open>s\<close> has a substring that is \<open>q\<close>, character by character as the store's
  collation \<open>f\<close> compares them.
\<close>

fun starts_with :: "(char \<Rightarrow> char) \<Rightarrow> string \<Rightarrow> string \<Rightarrow> bool" where
  "starts_with f s [] = True"
| "starts_with f [] (c # cs) = False"
| "starts_with f (d # ds) (c # cs) = (f c = f d \<and> starts_with f ds cs)"

fun contains :: "(char \<Rightarrow> char) \<Rightarrow> string \<Rightarrow> string \<Rightarrow> bool" where
  "contains f [] q = (q = [])"
| "contains f (d # ds) q = (starts_with f (d # ds) q \<or> contains f ds q)"



text \<open>
  The columns of a sample store: the fields of the entity as the spec lists them, and the
  relation \<open>user\<close> by its join column. Text, the two enums among it, sorts by code
  point; a \<open>NULL\<close> description sorts last.
\<close>

definition str_key :: "string \<Rightarrow> int list" where
  "str_key s = map of_char s"

fun status_key :: "task_status \<Rightarrow> int list" where
  "status_key PENDING = str_key ''PENDING''"
| "status_key IN_PROGRESS = str_key ''IN_PROGRESS''"
| "status_key COMPLETED = str_key ''COMPLETED''"
| "status_key (OTHER_STATUS s) = str_key s"

fun priority_key :: "task_priority \<Rightarrow> int list" where
  "priority_key LOW = str_key ''LOW''"
| "priority_key MEDIUM = str_key ''MEDIUM''"
| "priority_key HIGH = str_key ''HIGH''"
| "priority_key (OTHER_PRIORITY s) = str_key s"

definition column_key :: "string \<Rightarrow> (task \<Rightarrow> int list) option" where
  "column_key expr =
     (if expr = ''task.id'' then Some (\<lambda>t. str_key (task_id t))
      else if expr = ''task.title'' then Some (\<lambda>t. str_key (title t))
      else if expr = ''task.description''
        then Some (\<lambda>t. case description t of None \<Rightarrow> [1] | Some d \<Rightarrow> 0 # str_key d)
      else if expr = ''task.status'' then Some (\<lambda>t. status_key (status t))
      else if expr = ''task.priority'' then Some (\<lambda>t. priority_key (priority t))
      else if expr = ''task.userId'' then Some (\<lambda>t. str_key (userId t))
      else if expr = ''task.user'' then Some (\<lambda>t. str_key (userId t))
      else if expr = ''task.createdAt'' then Some (\<lambda>t. [createdAt t])
      else if expr = ''task.updatedAt'' then Some (\<lambda>t. [updatedAt t])
      else None)"

section \<open>Cache service\<close>

text \<open>
  The values a caller can hand to the cache, as far as \<^verbatim>\<open>JSON.stringify\<close> tells them
  apart: \<open>undefined\<close>, \<open>null\<close>, booleans, (finite, integral) numbers, strings,
  functions, \<open>Date\<close> objects (kept by the ISO string that \<^verbatim>\<open>toJSON\<close> gives), arrays
  and plain objects (their own enumerable properties, in order).
\<close>

datatype jsval =
    JUndefined
  | JNull
  | JBool bool
  | JNum int
  | JStr string
  | JFunction
  | JDate string
  | JArr "jsval list"
  | JObj "(string \<times> jsval) list"

text \<open>
  \<^verbatim>\<open>JSON.parse(JSON.stringify(v))\<close>. \<open>stringify\<close> gives no text for
  \<open>undefined\<close> and for a function (\<open>None\<close> here); inside an array such an element is
  written as \<open>null\<close>, inside an object the property is left out; a \<open>Date\<close> is written
  as its ISO string. \<open>parse\<close> of no text raises a SyntaxError.
\<close>

fun json_of :: "jsval \<Rightarrow> jsval option"
  and json_elems :: "jsval list \<Rightarrow> jsval list"
  and json_props :: "(string \<times> jsval) list \<Rightarrow> (string \<times> jsval) list" where
  "json_of JUndefined = None"
| "json_of JNull = Some JNull"
| "json_of (JBool b) = Some (JBool b)"
| "json_of (JNum n) = Some (JNum n)"
| "json_of (JStr s) = Some (JStr s)"
| "json_of JFunction = None"
| "json_of (JDate d) = Some (JStr d)"
| "json_of (JArr xs) = Some (JArr (json_elems xs))"
| "json_of (JObj ps) = Some (JObj (json_props ps))"
| "json_elems [] = []"
| "json_elems (x # xs) = (case json_of x of None \<Rightarrow> JNull | Some y \<Rightarrow> y) # json_elems xs"
| "json_props [] = []"
| "json_props ((k, v) # ps) =
     (case json_of v of None \<Rightarrow> json_props ps | Some y \<Rightarrow> (k, y) # json_props ps)"

text \<open>The values that JSON represents as they are.\<close>

fun is_json :: "jsval \<Rightarrow> bool"
  and are_json :: "jsval list \<Rightarrow> bool"
  and props_json :: "(string \<times> jsval) list \<Rightarrow> bool" where
  "is_json JUndefined = False"
| "is_json JNull = True"
| "is_json (JBool b) = True"
| "is_json (JNum n) = True"
| "is_json (JStr s) = True"
| "is_json JFunction = False"
| "is_json (JDate d) = False"
| "is_json (JArr xs) = are_json xs"
| "is_json (JObj ps) = props_json ps"
| "are_json [] = True"
| "are_json (x # xs) = (is_json x \<and> are_json xs)"
| "props_json [] = True"
| "props_json ((k, v) # ps) = (is_json v \<and> props_json ps)"

text \<open>
  Objects have identity: a caller holds a reference, and so does a cache item. The object
  store maps a reference to the value found there; \<open>next_ref\<close> is the first reference not
  yet handed out. A reference stands for a whole value; sharing between parts of two
  values is not represented.

  \<^verbatim>\<open>
  interface CacheItem { value: any; expiresAt: number; }
  private cache: Map<string, CacheItem> = new Map();
  private namespace = 'app';
  \<close>
\<close>

record cache_item =
  item_value :: ref
  expiresAt :: int

record cache_state =
  objects :: "ref \<Rightarrow> jsval"
  next_ref :: ref
  cache :: "string \<Rightarrow> cache_item option"

definition namespace :: string where
  "namespace = ''app''"

definition namespacedKey :: "string \<Rightarrow> string" where
  "namespacedKey key = namespace @ '':'' @ key"

definition json_copy :: "ref \<Rightarrow> cache_state \<Rightarrow> (error + ref) \<times> cache_state" where
  "json_copy r s =
     (case json_of (objects s r) of
        None \<Rightarrow> (Inl SyntaxError, s)
      | Some v \<Rightarrow>
          (Inr (next_ref s),
           s\<lparr>objects := (objects s)(next_ref s := v), next_ref := Suc (next_ref s)\<rparr>))"

text \<open>
  \<^verbatim>\<open>
  async set(key: string, value: any, ttlSeconds = 300) {
    if (!key || typeof key !== 'string') throw new Error('Invalid cache key');
    const safeValue = JSON.parse(JSON.stringify(value));
    const expiresAt = Date.now() + ttlSeconds * 1000;
    this.cache.set(this.namespacedKey(key), { value: safeValue, expiresAt });
  }
  \<close>
  \<open>now\<close> is the reading of \<^verbatim>\<open>Date.now()\<close> during the call.
\<close>

definition cache_set ::
  "string \<Rightarrow> ref \<Rightarrow> int option \<Rightarrow> int \<Rightarrow> cache_state \<Rightarrow> (error + unit) \<times> cache_state" where
  "cache_set key val ttl now s =
     (let ttlSeconds = (case ttl of None \<Rightarrow> 300 | Some n \<Rightarrow> n)
      in if key = [] then (Inl (Error ''Invalid cache key''), s)
         else (case json_copy val s of
                 (Inl e, s1) \<Rightarrow> (Inl e, s1)
               | (Inr safeValue, s1) \<Rightarrow>
                   (Inr (),
                    s1\<lparr>cache := (cache s1)(namespacedKey key \<mapsto>
                         \<lparr>item_value = safeValue, expiresAt = now + ttlSeconds * 1000\<rparr>)\<rparr>)))"

text \<open>
  \<^verbatim>\<open>
  async get<T>(key: string): Promise<T | null> {
    const item = this.cache.get(this.namespacedKey(key));
    if (!item) return null;
    if (item.expiresAt < Date.now()) {
      this.cache.delete(this.namespacedKey(key));
      return null;
    }
    return JSON.parse(JSON.stringify(item.value)) as T;
  }
  \<close>
  The result \<open>None\<close> is \<^verbatim>\<open>null\<close>, the absent value.
\<close>

definition cache_get :: "string \<Rightarrow> int \<Rightarrow> cache_state \<Rightarrow> (error + ref option) \<times> cache_state" where
  "cache_get key now s =
     (case cache s (namespacedKey key) of
        None \<Rightarrow> (Inr None, s)
      | Some item \<Rightarrow>
          if expiresAt item < now
          then (Inr None, s\<lparr>cache := (cache s)(namespacedKey key := None)\<rparr>)
          else (case json_copy (item_value item) s of
                  (Inl e, s1) \<Rightarrow> (Inl e, s1)
                | (Inr r, s1) \<Rightarrow> (Inr (Some r), s1)))"


definition cache_delete :: "string \<Rightarrow> cache_state \<Rightarrow> bool \<times> cache_state" where
  "cache_delete key s =
     (cache s (namespacedKey key) \<noteq> None, s\<lparr>cache := (cache s)(namespacedKey key := None)\<rparr>)"

definition cache_clear :: "cache_state \<Rightarrow> cache_state" where
  "cache_clear s = s\<lparr>cache := (\<lambda>k. None)\<rparr>"

definition cleanupExpired :: "int \<Rightarrow> cache_state \<Rightarrow> cache_state" where
  "cleanupExpired now s =
     s\<lparr>cache := (\<lambda>k. case cache s k of
                       None \<Rightarrow> None
                     | Some item \<Rightarrow> if expiresAt item < now then None else Some item)\<rparr>"

text \<open>A caller's assignment through a reference it holds.\<close>

definition mutate :: "ref \<Rightarrow> jsval \<Rightarrow> cache_state \<Rightarrow> cache_state" where
  "mutate r v s = s\<lparr>objects := (objects s)(r := v)\<rparr>"

section \<open>Sample data\<close>

text \<open>
  A healthy store, a create request, three persisted tasks (the second one already
  COMPLETED), an empty patch and an empty filter, for the concrete instances below.
\<close>

definition env_ok :: store_env where
  "env_ok = \<lparr>read_fault = None, write_fault = None, commit_fault = None,
     generated_id = ''t9'', clock = 1000, default_status = PENDING, default_priority = MEDIUM,
     rejects_negative = True, resolve_column = column_key, arrange = (\<lambda>ts. ts),
     fold_char = (\<lambda>c. c)\<rparr>"

definition dto1 :: create_task_dto where
  "dto1 = \<lparr>c_title = ''Write report'', c_description = None, c_status = Some IN_PROGRESS,
     c_priority = None, c_userId = ''u1''\<rparr>"

definition task1 :: task where
  "task1 = \<lparr>task_id = ''t1'', title = ''Alpha'', description = Some ''first'', status = PENDING,
     priority = LOW, userId = ''u1'', createdAt = 10, updatedAt = 10\<rparr>"

definition task2 :: task where
  "task2 = \<lparr>task_id = ''t2'', title = ''Beta'', description = None, status = COMPLETED,
     priority = HIGH, userId = ''u1'', createdAt = 20, updatedAt = 25\<rparr>"

definition task3 :: task where
  "task3 = \<lparr>task_id = ''t3'', title = ''Gamma'', description = Some ''third'', status = IN_PROGRESS,
     priority = MEDIUM, userId = ''u2'', createdAt = 30, updatedAt = 30\<rparr>"

definition world0 :: world where
  "world0 = \<lparr>rows = [], trace = []\<rparr>"

definition world3 :: world where
  "world3 = \<lparr>rows = [task1, task2, task3], trace = []\<rparr>"

definition no_patch :: update_task_dto where
  "no_patch = \<lparr>u_title = None, u_description = None, u_status = None, u_priority = None,
     u_userId = None\<rparr>"

definition no_filter :: task_filter_dto where
  "no_filter = \<lparr>page = None, limit = None, sortingOrder = None, sortingColumn = None,
     searchQuery = None, f_status = None, f_priority = None, f_userId = None,
     dateFrom = None, dateTo = None\<rparr>"



text \<open>
  A runtime in which the caller holds one object, at reference 0, and the cache is empty;
  and the round trip as a caller performs it: \<open>set\<close> the object at reference 0 under a
  key (default TTL, at time 0), \<open>get\<close> the key at once and look at the object that
  comes back.
\<close>

definition cache0 :: "jsval \<Rightarrow> cache_state" where
  "cache0 v = \<lparr>objects = (\<lambda>r. if r = 0 then v else JUndefined), next_ref = 1, cache = (\<lambda>k. None)\<rparr>"

definition cache1 :: cache_state where
  "cache1 = cache0 (JObj [(''a'', JNum 1)])"

text \<open>
  A runtime in which the object at reference 0 is a \<open>Date\<close> and the cache holds that very
  reference under the key \<open>k\<close>, live until time 5000.
\<close>

definition cache_date :: cache_state where
  "cache_date = \<lparr>objects = (\<lambda>r. if r = 0 then JDate ''2024-05-01T00:00:00.000Z'' else JUndefined),
     next_ref = 1,
     cache = (\<lambda>k. if k = ''app:k'' then Some \<lparr>item_value = 0, expiresAt = 5000\<rparr> else None)\<rparr>"

definition set_then_get :: "string \<Rightarrow> jsval \<Rightarrow> error + jsval option" where
  "set_then_get key v =
     (case cache_set key 0 None 0 (cache0 v) of
        (Inl e, s1) \<Rightarrow> Inl e
      | (Inr u, s1) \<Rightarrow>
          (case cache_get key 0 s1 of
             (Inl e, s2) \<Rightarrow> Inl e
           | (Inr None, s2) \<Rightarrow> Inr None
           | (Inr (Some r), s2) \<Rightarrow> Inr (Some (objects s2 r))))"

section \<open>The queue as read from the trace\<close>

lemma queue_of_append: "queue_of (xs @ ys) = queue_of xs @ queue_of ys"
  by (induction xs rule: queue_of.induct) simp_all

lemma queue_queue_add:
  "queue (queue_add n i s w) = queue w @ [\<lparr>job_name = n, job_taskId = i, job_status = s\<rparr>]"
  by (simp add: queue_def queue_add_def emit_def queue_of_append)

lemma queue_rows_update: "queue (w\<lparr>rows := r\<rparr>) = queue w"
  by (simp add: queue_def)

lemma queue_literal: "queue \<lparr>rows = r, trace = t\<rparr> = queue_of t"
  by (simp add: queue_def)

section \<open>create: rollback on a failed write, one event before the commit\<close>

text \<open>
  C1. When the save is rejected, \<open>create\<close> rolls the transaction back (the trace of the
  call is connect, start, rollback, with no commit), enqueues nothing and raises the
  store's error. When the save succeeds, the trace of the call is: connect, start, the one
  \<open>task-status-update\<close> job carrying the saved task's id and status, and only then the
  commit (or the rollback, when the commit itself is rejected); the saved task is
  returned when the commit succeeds.
\<close>

theorem create_rollback_or_enqueue_before_commit:
  "(write_fault env = Some e \<longrightarrow>
      create env dto w =
        (Inl (StoreError e), w\<lparr>trace := trace w @ [TxConnect, TxStart, TxRollback]\<rparr>)
      \<and> queue (snd (create env dto w)) = queue w)
   \<and> (write_fault env = None \<longrightarrow>
      (let saved = repository_create env dto in
       fst (create env dto w) =
          (case commit_fault env of None \<Rightarrow> Inr saved | Some e' \<Rightarrow> Inl (StoreError e'))
       \<and> rows (snd (create env dto w)) = rows w @ [saved]
       \<and> trace (snd (create env dto w)) =
           trace w @ [TxConnect, TxStart, QueueAdd (status_job (task_id saved) (status saved)),
                      (if commit_fault env = None then TxCommit else TxRollback)]
       \<and> queue (snd (create env dto w)) = queue w @ [status_job (task_id saved) (status saved)]))"
  by (auto simp: create_def save_insert_def Let_def emit_def rollbackTransaction_def queue_add_def
      commitTransaction_def queue_def queue_of_append status_job_def split: option.splits)

theorem create_rollback_or_enqueue_before_commit_witness:
  "write_fault (env_ok\<lparr>write_fault := Some ''fk''\<rparr>) = Some ''fk''
   \<and> fst (create (env_ok\<lparr>write_fault := Some ''fk''\<rparr>) dto1 world0) = Inl (StoreError ''fk'')
   \<and> queue (snd (create (env_ok\<lparr>write_fault := Some ''fk''\<rparr>) dto1 world0)) = []
   \<and> write_fault env_ok = None
   \<and> queue (snd (create env_ok dto1 world0)) = [status_job ''t9'' IN_PROGRESS]
   \<and> trace (snd (create env_ok dto1 world0)) =
       [TxConnect, TxStart, QueueAdd (status_job ''t9'' IN_PROGRESS), TxCommit]"
  using create_rollback_or_enqueue_before_commit
          [of "env_ok\<lparr>write_fault := Some ''fk''\<rparr>" "''fk''" dto1 world0]
        create_rollback_or_enqueue_before_commit [of env_ok "''fk''" dto1 world0]
  by (simp add: env_ok_def dto1_def world0_def repository_create_def Let_def queue_def)

section \<open>update: the status comparison\<close>

text \<open>
  Both sides of the comparison in \<open>update\<close> are read from the one entity object after the
  patch has been written into it, so no call of \<open>update\<close> adds a job to the queue.
\<close>

lemma update_never_enqueues: "queue (snd (update env i dto w)) = queue w"
  by (auto simp: update_def findOne_def Let_def emit_def rollbackTransaction_def object_assign_def
      save_entity_def commitTransaction_def queue_def queue_of_append
      split: option.splits sum.splits prod.splits)

text \<open>
  C2. The claim: \<open>update\<close> enqueues a status-update event exactly when the persisted
  status after the call differs from the one read before the merge. The code at
  task \<open>t1\<close>, persisted as PENDING, patched with status COMPLETED: the call succeeds, the
  row now reads COMPLETED, and the queue is still empty.
\<close>

theorem update_status_change_enqueues_nothing:
  "fst (update env_ok ''t1'' (no_patch\<lparr>u_status := Some COMPLETED\<rparr>) world3)
     = Inr (Some (task1\<lparr>status := COMPLETED\<rparr>))
   \<and> map status (rows world3) = [PENDING, COMPLETED, IN_PROGRESS]
   \<and> map status (rows (snd (update env_ok ''t1'' (no_patch\<lparr>u_status := Some COMPLETED\<rparr>) world3)))
       = [COMPLETED, COMPLETED, IN_PROGRESS]
   \<and> queue (snd (update env_ok ''t1'' (no_patch\<lparr>u_status := Some COMPLETED\<rparr>) world3)) = []"
  by (simp add: update_def findOne_def Let_def emit_def rollbackTransaction_def object_assign_def
      save_entity_def commitTransaction_def queue_def env_ok_def world3_def no_patch_def
      assign_fields_def task1_def task2_def task3_def)

section \<open>batchProcessTasks: complete\<close>

lemma rows_enqueue_completed: "rows (enqueue_completed ids w) = rows w"
  by (induction ids arbitrary: w) (simp_all add: queue_add_def emit_def)

lemma queue_enqueue_completed:
  "queue (enqueue_completed ids w) = queue w @ map (\<lambda>i. status_job i COMPLETED) ids"
  by (induction ids arbitrary: w) (simp_all add: queue_queue_add status_job_def)

text \<open>
  C3, as the code has it. For a non-empty id list and a store that accepts the statement,
  \<open>batchProcessTasks\<close> with action \<open>complete\<close> rewrites exactly the rows whose id is in
  the list and whose status is not yet COMPLETED (every other row is left as it was),
  returns the number of those rows as \<open>updated\<close>, and enqueues one
  \<open>task-status-update\<close> job with status COMPLETED for every element of the id list, in
  list order, whether or not that id was affected.
\<close>

theorem batch_complete_fans_out_over_the_id_list:
  assumes "taskIds \<noteq> []" and "write_fault env = None"
  shows "fst (batchProcessTasks env taskIds ''complete'' w)
           = Inr (Updated (length (filter (to_complete taskIds) (rows w))))
       \<and> rows (snd (batchProcessTasks env taskIds ''complete'' w))
           = map (\<lambda>t. if to_complete taskIds t then t\<lparr>status := COMPLETED\<rparr> else t) (rows w)
       \<and> queue (snd (batchProcessTasks env taskIds ''complete'' w))
           = queue w @ map (\<lambda>i. status_job i COMPLETED) taskIds"
  using assms
  by (simp add: batchProcessTasks_def execute_update_completed_def rows_enqueue_completed
      queue_enqueue_completed queue_rows_update)

theorem batch_complete_fans_out_over_the_id_list_witness:
  "[''t3'', ''t7''] \<noteq> [] \<and> write_fault env_ok = None
   \<and> fst (batchProcessTasks env_ok [''t3'', ''t7''] ''complete'' world3) = Inr (Updated 1)
   \<and> map status (rows (snd (batchProcessTasks env_ok [''t3'', ''t7''] ''complete'' world3)))
       = [PENDING, COMPLETED, COMPLETED]
   \<and> queue (snd (batchProcessTasks env_ok [''t3'', ''t7''] ''complete'' world3))
       = [status_job ''t3'' COMPLETED, status_job ''t7'' COMPLETED]"
  using batch_complete_fans_out_over_the_id_list [of "[''t3'', ''t7'']" env_ok world3]
  by (simp add: env_ok_def world3_def task1_def task2_def task3_def to_complete_def queue_def)

text \<open>
  C3, as stated, fails: of the three ids, \<open>t2\<close> is already COMPLETED; the returned count
  is 2, yet three jobs are enqueued, one of them for \<open>t2\<close>.
\<close>

theorem batch_complete_counterexample:
  "fst (batchProcessTasks env_ok [''t1'', ''t2'', ''t3''] ''complete'' world3) = Inr (Updated 2)
   \<and> status task2 = COMPLETED
   \<and> queue (snd (batchProcessTasks env_ok [''t1'', ''t2'', ''t3''] ''complete'' world3))
       = [status_job ''t1'' COMPLETED, status_job ''t2'' COMPLETED, status_job ''t3'' COMPLETED]"
  by (simp add: batchProcessTasks_def execute_update_completed_def to_complete_def env_ok_def
      world3_def task1_def task2_def task3_def queue_queue_add queue_literal status_job_def)

section \<open>findAll: the ORDER BY expression\<close>

text \<open>
  C4, as the code has it. \<open>findAll\<close> holds the sort column against no list of sortable
  fields: a sort column that is supplied and not empty is appended to \<open>task.\<close> as it is,
  whatever it contains, and that string is the ORDER BY expression of the query (with the
  sort order as supplied); without a sort column the expression is \<open>task.id\<close>.
\<close>

theorem findAll_order_by_is_interpolated:
  "order_by (findAll_query payload) =
     Some ((case sortingColumn payload of
              None \<Rightarrow> ''task.id''
            | Some c \<Rightarrow> if c = [] then ''task.id'' else ''task.'' @ c),
           sortingOrder payload)"
  by (simp add: findAll_query_def Let_def take_rows_def skip_rows_def orderBy_def
      findAll_order_expression_def truthy_def split: option.splits)

text \<open>
  C4, as stated, fails: a sort column that names no column of the entity (and carries SQL
  text of its own) is found, unchanged, in the ORDER BY expression of the query.
\<close>

theorem sort_column_counterexample:
  "column_key (''task.'' @ ''id; DROP TABLE tasks'') = None
   \<and> order_by (findAll_query (no_filter\<lparr>sortingColumn := Some ''id; DROP TABLE tasks''\<rparr>))
       = Some (''task.id; DROP TABLE tasks'', None)"
  by (simp add: findAll_query_def Let_def take_rows_def skip_rows_def orderBy_def
      findAll_order_expression_def truthy_def no_filter_def column_key_def)

section \<open>findAll: page and count\<close>






lemma starts_with_iff:
  "starts_with f s q \<longleftrightarrow> (\<exists>mid post. s = mid @ post \<and> map f mid = map f q)"
proof (induction f s q rule: starts_with.induct)
  case (1 f s)
  show ?case by simp
next
  case (2 f c cs)
  show ?case by simp
next
  case (3 f d ds c cs)
  show ?case
  proof
    assume "starts_with f (d # ds) (c # cs)"
    with 3 obtain mid post where "f c = f d" "ds = mid @ post" "map f mid = map f cs"
      by auto
    then have "d # ds = (d # mid) @ post \<and> map f (d # mid) = map f (c # cs)"
      by simp
    then show "\<exists>mid post. d # ds = mid @ post \<and> map f mid = map f (c # cs)"
      by blast
  next
    assume "\<exists>mid post. d # ds = mid @ post \<and> map f mid = map f (c # cs)"
    then obtain mid post where e: "d # ds = mid @ post" "map f mid = map f (c # cs)"
      by blast
    then obtain m ms where mid: "mid = m # ms"
      by (cases mid) auto
    with e have "f c = f d" "ds = ms @ post" "map f ms = map f cs"
      by auto
    with 3 show "starts_with f (d # ds) (c # cs)"
      by auto
  qed
qed

lemma contains_iff:
  "contains f s q \<longleftrightarrow> (\<exists>pre mid post. s = pre @ mid @ post \<and> map f mid = map f q)"
proof (induction s)
  case Nil
  then show ?case by auto
next
  case (Cons d ds)
  show ?case
  proof
    assume "contains f (d # ds) q"
    then consider "starts_with f (d # ds) q" | "contains f ds q"
      by auto
    then show "\<exists>pre mid post. d # ds = pre @ mid @ post \<and> map f mid = map f q"
    proof cases
      case 1
      then obtain mid post where "d # ds = mid @ post" "map f mid = map f q"
        by (auto simp: starts_with_iff)
      then have "d # ds = [] @ mid @ post \<and> map f mid = map f q"
        by simp
      then show ?thesis by blast
    next
      case 2
      with Cons obtain pre mid post where "ds = pre @ mid @ post" "map f mid = map f q"
        by auto
      then have "d # ds = (d # pre) @ mid @ post \<and> map f mid = map f q"
        by simp
      then show ?thesis by blast
    qed
  next
    assume "\<exists>pre mid post. d # ds = pre @ mid @ post \<and> map f mid = map f q"
    then obtain pre mid post where e: "d # ds = pre @ mid @ post" "map f mid = map f q"
      by blast
    show "contains f (d # ds) q"
    proof (cases pre)
      case Nil
      with e have "starts_with f (d # ds) q"
        by (auto simp: starts_with_iff)
      then show ?thesis by simp
    next
      case (Cons a pre')
      with e have "ds = pre' @ mid @ post" by simp
      with e Cons.IH have "contains f ds q" by blast
      then show ?thesis by simp
    qed
  qed
qed















section \<open>remove\<close>

text \<open>
  C6. \<open>remove\<close> raises the NotFoundException exactly when the delete reports zero
  affected rows, which it does exactly when the store accepts the delete and no row has
  the id. When a row has the id (and the store accepts the delete), \<open>remove\<close> returns
  without raising, and a later \<open>findOne\<close> of that id finds nothing.
\<close>

theorem remove_not_found_iff_no_row:
  "(fst (remove env i w) = Inl (NotFoundException (''Task with ID '' @ i @ '' not found''))
      \<longleftrightarrow> fst (repository_delete env i w) = Inr 0)
   \<and> (fst (repository_delete env i w) = Inr 0
      \<longleftrightarrow> write_fault env = None \<and> i \<notin> task_id ` set (rows w))
   \<and> (write_fault env = None \<and> i \<in> task_id ` set (rows w) \<longrightarrow>
        fst (remove env i w) = Inr (''Task with ID '' @ i @ '' deleted successfully'')
        \<and> (\<forall>env'. read_fault env' = None \<longrightarrow> findOne env' i (snd (remove env i w)) = Inr None))"
  by (auto simp: remove_def repository_delete_def findOne_def find_None_iff filter_empty_conv
      split: option.splits)

theorem remove_not_found_iff_no_row_witness:
  "write_fault env_ok = None \<and> ''t2'' \<in> task_id ` set (rows world3)
   \<and> fst (remove env_ok ''t2'' world3) = Inr ''Task with ID t2 deleted successfully''
   \<and> findOne env_ok ''t2'' (snd (remove env_ok ''t2'' world3)) = Inr None
   \<and> ''t7'' \<notin> task_id ` set (rows world3)
   \<and> fst (remove env_ok ''t7'' world3) = Inl (NotFoundException ''Task with ID t7 not found'')"
  using remove_not_found_iff_no_row [of env_ok "''t2''" world3]
        remove_not_found_iff_no_row [of env_ok "''t7''" world3]
  by (simp add: env_ok_def world3_def task1_def task2_def task3_def)

section \<open>batchProcessTasks: delete\<close>

lemma length_filter_ids:
  assumes d: "distinct (map task_id ts)"
  shows "length (filter (\<lambda>t. task_id t \<in> S) ts) = card (S \<inter> task_id ` set ts)"
proof -
  let ?ids = "filter (\<lambda>i. i \<in> S) (map task_id ts)"
  have "distinct ?ids"
    using d by (rule distinct_filter)
  then have "card (set ?ids) = length ?ids"
    by (rule distinct_card)
  moreover have "length ?ids = length (filter (\<lambda>t. task_id t \<in> S) ts)"
    by (simp add: filter_map comp_def)
  moreover have "set ?ids = S \<inter> task_id ` set ts"
    by auto
  ultimately show ?thesis
    by simp
qed

text \<open>
  C7. For a non-empty id list, a store that accepts the statement and a table whose ids
  are a key: \<open>batchProcessTasks\<close> with action \<open>delete\<close> returns normally, whether or not
  all ids exist; its one statement removes exactly the rows whose id is in the list and
  changes nothing else (the trace, and with it the queue, is as before); the \<open>deleted\<close>
  count is the number of rows removed, which is the number of listed ids that existed.
  For a single id that does not exist the batch returns the count 0 where \<open>remove\<close>
  raises the NotFoundException.
\<close>

theorem batch_delete_partial_success:
  assumes "taskIds \<noteq> []" and "write_fault env = None" and "distinct (map task_id (rows w))"
  shows "batchProcessTasks env taskIds ''delete'' w
           = (Inr (Deleted (length (filter (\<lambda>t. task_id t \<in> set taskIds) (rows w)))),
              w\<lparr>rows := filter (\<lambda>t. task_id t \<notin> set taskIds) (rows w)\<rparr>)
       \<and> queue (snd (batchProcessTasks env taskIds ''delete'' w)) = queue w
       \<and> fst (batchProcessTasks env taskIds ''delete'' w)
           = Inr (Deleted (card (set taskIds \<inter> task_id ` set (rows w))))
       \<and> (\<forall>i. i \<notin> task_id ` set (rows w) \<longrightarrow>
             fst (batchProcessTasks env [i] ''delete'' w) = Inr (Deleted 0)
             \<and> fst (remove env i w)
                 = Inl (NotFoundException (''Task with ID '' @ i @ '' not found'')))"
proof -
  have none: "filter (\<lambda>t. task_id t = i) (rows w) = []" if "i \<notin> task_id ` set (rows w)" for i
    using that by (auto simp: filter_empty_conv)
  show ?thesis
    using assms
    by (auto simp: batchProcessTasks_def execute_delete_in_ids_def queue_rows_update
        length_filter_ids remove_def repository_delete_def none)
qed

theorem batch_delete_partial_success_witness:
  "[''t1'', ''t7'', ''t3''] \<noteq> [] \<and> write_fault env_ok = None
   \<and> distinct (map task_id (rows world3))
   \<and> batchProcessTasks env_ok [''t1'', ''t7'', ''t3''] ''delete'' world3
       = (Inr (Deleted 2), \<lparr>rows = [task2], trace = []\<rparr>)
   \<and> queue (snd (batchProcessTasks env_ok [''t1'', ''t7'', ''t3''] ''delete'' world3)) = []"
  using batch_delete_partial_success [of "[''t1'', ''t7'', ''t3'']" env_ok world3]
  by (simp add: env_ok_def world3_def task1_def task2_def task3_def queue_def)

section \<open>Cache: expiry\<close>



section \<open>Cache: the JSON copy\<close>

lemma json_of_fixes_json:
  "(is_json v \<longrightarrow> json_of v = Some v)"
  "(are_json xs \<longrightarrow> json_elems xs = xs)"
  "(props_json ps \<longrightarrow> json_props ps = ps)"
  by (induction v and xs and ps rule: json_of_json_elems_json_props.induct) simp_all

lemma length_json_props: "length (json_props ps) \<le> length ps"
  by (induction ps) (auto split: option.splits intro: le_SucI)

lemma json_of_fixpoint_is_json:
  "(json_of v = Some v \<longrightarrow> is_json v)"
  "(json_elems xs = xs \<longrightarrow> are_json xs)"
  "(json_props ps = ps \<longrightarrow> props_json ps)"
proof (induction v and xs and ps rule: json_of_json_elems_json_props.induct)
  case (13 k v ps)
  show ?case
  proof (cases "json_of v")
    case None
    have "length (json_props ps) \<le> length ps"
      by (rule length_json_props)
    then have "json_props ps \<noteq> (k, v) # ps"
      by auto
    with None show ?thesis
      by simp
  next
    case (Some y)
    with 13 show ?thesis
      by auto
  qed
qed (auto split: option.splits)

lemma json_of_eq_iff: "json_of v = Some v \<longleftrightarrow> is_json v"
  using json_of_fixes_json(1) json_of_fixpoint_is_json(1) by blast

lemma json_of_output_is_json:
  "(\<forall>v1. json_of v = Some v1 \<longrightarrow> is_json v1)"
  "are_json (json_elems xs)"
  "props_json (json_props ps)"
  by (induction v and xs and ps rule: json_of_json_elems_json_props.induct)
     (auto split: option.splits)

lemma json_of_idem: "json_of v = Some v1 \<Longrightarrow> json_of v1 = Some v1"
  using json_of_output_is_json(1) json_of_fixes_json(1) by blast

lemma cache_set_json:
  assumes "key \<noteq> []" and "is_json (objects s a)"
  shows "cache_set key a ttl t0 s =
           (Inr (),
            s\<lparr>objects := (objects s)(next_ref s := objects s a),
              next_ref := Suc (next_ref s),
              cache := (cache s)(namespacedKey key \<mapsto>
                 \<lparr>item_value = next_ref s,
                  expiresAt = t0 + (case ttl of None \<Rightarrow> 300 | Some n \<Rightarrow> n) * 1000\<rparr>)\<rparr>)"
  using assms by (simp add: cache_set_def json_copy_def json_of_fixes_json Let_def)

lemma cache_get_live:
  assumes "cache s (namespacedKey key) = Some item" and "now \<le> expiresAt item"
    and "is_json (objects s (item_value item))"
  shows "cache_get key now s =
           (Inr (Some (next_ref s)),
            s\<lparr>objects := (objects s)(next_ref s := objects s (item_value item)),
              next_ref := Suc (next_ref s)\<rparr>)"
  using assms by (simp add: cache_get_def json_copy_def json_of_fixes_json)

lemma set_then_get_eq:
  "key \<noteq> [] \<Longrightarrow>
     set_then_get key v = (case json_of v of None \<Rightarrow> Inl SyntaxError | Some v1 \<Rightarrow> Inr (Some v1))"
  by (auto simp: set_then_get_def cache_set_def cache_get_def json_copy_def cache0_def Let_def
      json_of_idem split: option.splits)

section \<open>Cache: the round trip\<close>

text \<open>
  C9, as the code has it. Let the key be non-empty and let the value at the caller's
  reference \<open>a\<close> be one that JSON represents as it is (no \<open>undefined\<close>, function or
  \<open>Date\<close> anywhere in it). Then \<open>set\<close> succeeds, and a \<open>get\<close> before the expiry
  returns a reference \<open>r\<close> other than \<open>a\<close> to an equal value. An assignment, after
  the \<open>set\<close>, to any object \<open>m\<close> that existed before it (the original \<open>a\<close> among them)
  does not change what \<open>get\<close> returns, and neither does an assignment to the object
  \<open>r\<close> that a \<open>get\<close> has returned: the next \<open>get\<close> still returns the value as it
  was set, at yet another reference.
\<close>

theorem set_get_round_trip_json:
  assumes key: "key \<noteq> []"
    and json: "is_json (objects s a)"
    and held: "a < next_ref s"
    and live: "now \<le> t0 + (case ttl of None \<Rightarrow> 300 | Some n \<Rightarrow> n) * 1000"
    and live': "now' \<le> t0 + (case ttl of None \<Rightarrow> 300 | Some n \<Rightarrow> n) * 1000"
    and other: "m < next_ref s"
  shows "\<exists>s1 r s2 r' s2' r'' s3.
           cache_set key a ttl t0 s = (Inr (), s1)
         \<and> cache_get key now s1 = (Inr (Some r), s2)
         \<and> objects s2 r = objects s a \<and> r \<noteq> a
         \<and> cache_get key now (mutate m v' s1) = (Inr (Some r'), s2')
         \<and> objects s2' r' = objects s a
         \<and> cache_get key now' (mutate r v' s2) = (Inr (Some r''), s3)
         \<and> objects s3 r'' = objects s a \<and> r'' \<noteq> r"
proof -
  let ?e = "t0 + (case ttl of None \<Rightarrow> 300 | Some n \<Rightarrow> n) * 1000"
  let ?item = "\<lparr>item_value = next_ref s, expiresAt = ?e\<rparr>"
  let ?s1 = "s\<lparr>objects := (objects s)(next_ref s := objects s a),
               next_ref := Suc (next_ref s),
               cache := (cache s)(namespacedKey key \<mapsto> ?item)\<rparr>"
  let ?s2 = "?s1\<lparr>objects := (objects ?s1)(next_ref ?s1 := objects ?s1 (item_value ?item)),
                 next_ref := Suc (next_ref ?s1)\<rparr>"
  have set_ok: "cache_set key a ttl t0 s = (Inr (), ?s1)"
    using key json by (rule cache_set_json)
  have get1: "cache_get key now ?s1 = (Inr (Some (next_ref ?s1)), ?s2)"
    using live json by (intro cache_get_live) simp_all
  have m_neq: "m \<noteq> next_ref s"
    using other by simp
  let ?s1m = "mutate m v' ?s1"
  have get2: "cache_get key now ?s1m =
      (Inr (Some (next_ref ?s1m)),
       ?s1m\<lparr>objects := (objects ?s1m)(next_ref ?s1m := objects ?s1m (item_value ?item)),
            next_ref := Suc (next_ref ?s1m)\<rparr>)"
    using live json m_neq by (intro cache_get_live) (simp_all add: mutate_def)
  let ?s2m = "mutate (next_ref ?s1) v' ?s2"
  have get3: "cache_get key now' ?s2m =
      (Inr (Some (next_ref ?s2m)),
       ?s2m\<lparr>objects := (objects ?s2m)(next_ref ?s2m := objects ?s2m (item_value ?item)),
            next_ref := Suc (next_ref ?s2m)\<rparr>)"
    using live' json by (intro cache_get_live) (simp_all add: mutate_def)
  show ?thesis
    using set_ok get1 get2 get3 held m_neq
    by (simp add: mutate_def)
qed

theorem set_get_round_trip_json_witness:
  "''k'' \<noteq> [] \<and> is_json (objects cache1 0) \<and> 0 < next_ref cache1
   \<and> (1000::int) \<le> 0 + (case Some 60 of None \<Rightarrow> 300 | Some n \<Rightarrow> n) * 1000
   \<and> (2000::int) \<le> 0 + (case Some 60 of None \<Rightarrow> 300 | Some n \<Rightarrow> n) * 1000
   \<and> (\<exists>s1 r s2 r' s2' r'' s3.
           cache_set ''k'' 0 (Some 60) 0 cache1 = (Inr (), s1)
         \<and> cache_get ''k'' 1000 s1 = (Inr (Some r), s2)
         \<and> objects s2 r = JObj [(''a'', JNum 1)] \<and> r \<noteq> 0
         \<and> cache_get ''k'' 1000 (mutate 0 (JObj [(''a'', JNum 2)]) s1) = (Inr (Some r'), s2')
         \<and> objects s2' r' = JObj [(''a'', JNum 1)]
         \<and> cache_get ''k'' 2000 (mutate r (JObj [(''a'', JNum 2)]) s2) = (Inr (Some r''), s3)
         \<and> objects s3 r'' = JObj [(''a'', JNum 1)] \<and> r'' \<noteq> r)"
  using set_get_round_trip_json
          [of "''k''" cache1 0 1000 0 "Some 60" 2000 0 "JObj [(''a'', JNum 2)]"]
  by (simp add: cache1_def cache0_def)

text \<open>
  C9, as stated for every key and value, fails: an array holding \<open>undefined\<close> comes back
  holding \<open>null\<close>; for the value \<open>undefined\<close> itself, and for the empty key, \<open>set\<close>
  raises.
\<close>

theorem set_get_round_trip_counterexample:
  "set_then_get ''k'' (JArr [JUndefined, JNum 1]) = Inr (Some (JArr [JNull, JNum 1]))
   \<and> set_then_get ''k'' JUndefined = Inl SyntaxError
   \<and> set_then_get [] (JNum 1) = Inl (Error ''Invalid cache key'')"
  by (simp add: set_then_get_eq) (simp add: set_then_get_def cache_set_def)

text \<open>
  C10. The copy that \<open>set\<close> stores and the copy that \<open>get\<close> returns are each a JSON
  round trip of its own. A \<open>set\<close> with a non-empty key stores, at a fresh reference, the
  JSON image of the caller's value, and raises when the value has none; a \<open>get\<close> of a
  live entry returns, at a fresh reference, the JSON image of the stored value. The JSON
  image of a value is the value itself exactly when the value is one that JSON represents
  as it is, and so a \<open>set\<close> followed by a \<open>get\<close> gives back the value that was set
  exactly for those values. There are values for which it gives back something else: an
  object loses a property whose value is \<open>undefined\<close> or a function, and a \<open>Date\<close>
  comes back as a string.
\<close>

theorem json_round_trip_keeps_only_json_values:
  "(key \<noteq> [] \<longrightarrow>
      cache_set key a ttl t0 s =
        (case json_of (objects s a) of
           None \<Rightarrow> (Inl SyntaxError, s)
         | Some v1 \<Rightarrow>
             (Inr (),
              s\<lparr>objects := (objects s)(next_ref s := v1),
                next_ref := Suc (next_ref s),
                cache := (cache s)(namespacedKey key \<mapsto>
                   \<lparr>item_value = next_ref s,
                    expiresAt = t0 + (case ttl of None \<Rightarrow> 300 | Some n \<Rightarrow> n) * 1000\<rparr>)\<rparr>)))
   \<and> (\<forall>item. cache s (namespacedKey key) = Some item \<and> now \<le> expiresAt item \<longrightarrow>
        cache_get key now s =
          (case json_of (objects s (item_value item)) of
             None \<Rightarrow> (Inl SyntaxError, s)
           | Some v1 \<Rightarrow>
               (Inr (Some (next_ref s)),
                s\<lparr>objects := (objects s)(next_ref s := v1), next_ref := Suc (next_ref s)\<rparr>)))
   \<and> (json_of v = Some v \<longleftrightarrow> is_json v)
   \<and> (set_then_get ''k'' v = Inr (Some v) \<longleftrightarrow> is_json v)
   \<and> (\<exists>u u'. set_then_get ''k'' u = Inr (Some u') \<and> u' \<noteq> u)
   \<and> json_of (JObj [(''a'', JUndefined), (''b'', JNum 1)]) = Some (JObj [(''b'', JNum 1)])
   \<and> json_of (JObj [(''f'', JFunction)]) = Some (JObj [])
   \<and> json_of (JDate d) = Some (JStr d)
   \<and> set_then_get ''k'' (JObj [(''a'', JUndefined), (''b'', JNum 1)])
       = Inr (Some (JObj [(''b'', JNum 1)]))
   \<and> set_then_get ''k'' (JObj [(''f'', JFunction)]) = Inr (Some (JObj []))
   \<and> set_then_get ''k'' (JDate d) = Inr (Some (JStr d))"
proof -
  have set_part: "key \<noteq> [] \<longrightarrow>
      cache_set key a ttl t0 s =
        (case json_of (objects s a) of
           None \<Rightarrow> (Inl SyntaxError, s)
         | Some v1 \<Rightarrow>
             (Inr (),
              s\<lparr>objects := (objects s)(next_ref s := v1),
                next_ref := Suc (next_ref s),
                cache := (cache s)(namespacedKey key \<mapsto>
                   \<lparr>item_value = next_ref s,
                    expiresAt = t0 + (case ttl of None \<Rightarrow> 300 | Some n \<Rightarrow> n) * 1000\<rparr>)\<rparr>))"
    by (simp add: cache_set_def json_copy_def Let_def split: option.splits)
  have get_part: "\<forall>item. cache s (namespacedKey key) = Some item \<and> now \<le> expiresAt item \<longrightarrow>
        cache_get key now s =
          (case json_of (objects s (item_value item)) of
             None \<Rightarrow> (Inl SyntaxError, s)
           | Some v1 \<Rightarrow>
               (Inr (Some (next_ref s)),
                s\<lparr>objects := (objects s)(next_ref s := v1), next_ref := Suc (next_ref s)\<rparr>))"
    by (simp add: cache_get_def json_copy_def split: option.splits)
  have "set_then_get ''k'' (JDate []) = Inr (Some (JStr [])) \<and> JStr [] \<noteq> JDate []"
    by (simp add: set_then_get_eq)
  then have ex: "\<exists>u u'. set_then_get ''k'' u = Inr (Some u') \<and> u' \<noteq> u"
    by blast
  have fixed: "json_of v = Some v \<longleftrightarrow> is_json v"
    by (rule json_of_eq_iff)
  have trip: "set_then_get ''k'' v = Inr (Some v) \<longleftrightarrow> is_json v"
    by (simp add: set_then_get_eq json_of_eq_iff [symmetric] split: option.splits)
  have rest: "json_of (JObj [(''a'', JUndefined), (''b'', JNum 1)]) = Some (JObj [(''b'', JNum 1)])
   \<and> json_of (JObj [(''f'', JFunction)]) = Some (JObj [])
   \<and> json_of (JDate d) = Some (JStr d)
   \<and> set_then_get ''k'' (JObj [(''a'', JUndefined), (''b'', JNum 1)])
       = Inr (Some (JObj [(''b'', JNum 1)]))
   \<and> set_then_get ''k'' (JObj [(''f'', JFunction)]) = Inr (Some (JObj []))
   \<and> set_then_get ''k'' (JDate d) = Inr (Some (JStr d))"
    by (simp add: set_then_get_eq)
  show ?thesis
    using set_part get_part fixed trip ex rest by blast
qed

theorem json_round_trip_keeps_only_json_values_witness:
  "''k'' \<noteq> []
   \<and> cache_set ''k'' 0 None 0 cache_date =
       (Inr (), cache_date\<lparr>objects := (objects cache_date)(1 := JStr ''2024-05-01T00:00:00.000Z''),
                  next_ref := 2,
                  cache := (cache cache_date)(''app:k'' \<mapsto> \<lparr>item_value = 1, expiresAt = 300000\<rparr>)\<rparr>)
   \<and> cache cache_date (namespacedKey ''k'') = Some \<lparr>item_value = 0, expiresAt = 5000\<rparr>
   \<and> (1000::int) \<le> expiresAt \<lparr>item_value = 0, expiresAt = 5000\<rparr>
   \<and> cache_get ''k'' 1000 cache_date =
       (Inr (Some 1), cache_date\<lparr>objects := (objects cache_date)(1 := JStr ''2024-05-01T00:00:00.000Z''),
                         next_ref := 2\<rparr>)"
  using json_round_trip_keeps_only_json_values
          [of "''k''" 0 None 0 cache_date 1000 JNull "[]"]
  by (simp add: cache_date_def namespacedKey_def namespace_def)

end
